theory Spec2Isabelle
  imports Complex_Main "HOL-Library.Log_Nat"
begin

section \<open>The SIRD model of \<open>sird_base_model.py\<close>\<close>

text \<open>
  The program is read in two arithmetics. In the first, Python floats are
  \<^typ>\<open>real\<close> and every operation is exact: this is the reading of the formulas, and
  the one in which \<open>solve\<close> and \<open>get_params\<close> are modelled. In the second, further
  below, the constructor and \<open>setup\<close> are evaluated as Python evaluates them, on
  binary64 numbers with rounding, overflow, infinities and NaN. Python integers are
  \<^typ>\<open>int\<close>. An exception is a value of \<open>error\<close>; a method that can raise returns a
  sum with the error on the left.
\<close>

datatype error =
  ValueError | ZeroDivisionError | OverflowError | KeyError | IndexError | TypeError
  | AttributeError

subsection \<open>The right-hand side of the differential equations\<close>

definition dSdt :: "real \<Rightarrow> real \<Rightarrow> real \<Rightarrow> real" where
  "dSdt S I beta = - beta * S * I"

definition dIdt :: "real \<Rightarrow> real \<Rightarrow> real \<Rightarrow> real \<Rightarrow> real \<Rightarrow> real" where
  "dIdt S I beta gamma delta = beta * S * I - gamma * I - delta * I"

definition dRdt :: "real \<Rightarrow> real \<Rightarrow> real" where
  "dRdt I gamma = gamma * I"

definition dDdt :: "real \<Rightarrow> real \<Rightarrow> real" where
  "dDdt I delta = delta * I"

text \<open>
  \<open>eqns\<close> unpacks its state argument with \<open>S, I, R, D = y\<close>, which raises
  \<open>ValueError\<close> unless \<open>y\<close> has exactly four components.
\<close>

definition eqns :: "real \<Rightarrow> real list \<Rightarrow> real \<Rightarrow> real \<Rightarrow> real \<Rightarrow> error + real list" where
  "eqns t y beta gamma delta =
     (case y of
        [S, I, R, D] \<Rightarrow>
          Inr [dSdt S I beta, dIdt S I beta gamma delta, dRdt I gamma, dDdt I delta]
      | _ \<Rightarrow> Inl ValueError)"

subsection \<open>The external numerical library\<close>

text \<open>
  The result object of \<open>scipy.integrate.solve_ivp\<close>: the sample times \<open>t\<close> and the
  matrix \<open>y\<close>, one row per compartment and one column per sample time. The two fields
  are called \<open>sol_t\<close> and \<open>sol_y\<close> here. When the evaluation grid is empty scipy
  produces no sample and leaves in \<open>y\<close> the empty Python list instead of an array; the
  empty list of rows stands for it.
\<close>

record ode_result =
  sol_t :: "real list"
  sol_y :: "real list list"

text \<open>
  The solver itself is a parameter of the model: it receives the right-hand side, the
  time span, the initial state, the extra arguments of the right-hand side and the
  evaluation grid, and either raises or returns a result object.
\<close>

type_synonym ode_solver =
  "(real \<Rightarrow> real list \<Rightarrow> real \<Rightarrow> real \<Rightarrow> real \<Rightarrow> error + real list)
     \<Rightarrow> real \<times> real \<Rightarrow> real list \<Rightarrow> real \<times> real \<times> real \<Rightarrow> real list
     \<Rightarrow> error + ode_result"

text \<open>
  Modelled from the spec: \<open>numpy.linspace\<close> is a library function and not part of the
  repository. \<open>linspace start stop num\<close> is the grid of \<open>num\<close> equally spaced points
  whose first point is \<open>start\<close> and whose last point is \<open>stop\<close>. As in numpy, a single
  point is \<open>start\<close>, no point is the empty grid, and a negative number of points is
  rejected with \<open>ValueError\<close>.
\<close>

definition linspace :: "real \<Rightarrow> real \<Rightarrow> int \<Rightarrow> error + real list" where
  "linspace start stop num =
     (if num < 0 then Inl ValueError
      else if num = 1 then Inr [start]
      else Inr (map (\<lambda>i. start + real i * ((stop - start) / real_of_int (num - 1)))
                  [0 ..< nat num]))"

text \<open>
  The numpy index expression \<open>y[:, -1]\<close>: the last entry of every row, and
  \<open>IndexError\<close> when the rows have no entry.
\<close>

definition last_column :: "real list list \<Rightarrow> error + real list" where
  "last_column rows = (if [] \<in> set rows then Inl IndexError else Inr (map last rows))"

subsection \<open>The class \<open>SIRD\<close>\<close>

text \<open>
  The attributes \<open>population\<close>, \<open>y0\<close> and \<open>soln\<close> do not exist on a fresh instance:
  \<open>setup\<close> creates the first two and \<open>solve\<close> the third. \<open>None\<close> stands for an
  attribute that has not been created.
\<close>

record sird =
  R0 :: real
  M :: real
  P :: real
  beta :: real
  gamma :: real
  delta :: real
  population :: "int option"
  y0 :: "real list option"
  soln :: "ode_result option"

text \<open>
  The constructor, in exact arithmetic. Each keyword argument defaults to \<open>None\<close>. The
  descriptor group is tested first; the divisions raise \<open>ZeroDivisionError\<close> on a zero
  divisor, and the instance is then never returned.
\<close>

definition SIRD_init ::
  "real option \<Rightarrow> real option \<Rightarrow> real option \<Rightarrow> real option \<Rightarrow> real option \<Rightarrow> real option
     \<Rightarrow> error + sird" where
  "SIRD_init R0_arg M_arg P_arg beta_arg gamma_arg delta_arg =
     (case (R0_arg, M_arg, P_arg) of
        (Some r0, Some m, Some p) \<Rightarrow>
          if p = 0 then Inl ZeroDivisionError
          else Inr \<lparr>R0 = r0, M = m, P = p,
                    beta = r0 / p, gamma = (1 - m) / p, delta = m / p,
                    population = None, y0 = None, soln = None\<rparr>
      | _ \<Rightarrow>
        (case (beta_arg, gamma_arg, delta_arg) of
           (Some b, Some g, Some d) \<Rightarrow>
             if g + d = 0 then Inl ZeroDivisionError
             else Inr \<lparr>R0 = b * (1 / (g + d)), M = d / (g + d), P = 1 / (g + d),
                       beta = b, gamma = g, delta = d,
                       population = None, y0 = None, soln = None\<rparr>
         | _ \<Rightarrow> Inl ValueError))"

text \<open>
  The method \<open>setup\<close> in exact arithmetic, called \<open>setup_sird\<close> here since \<open>setup\<close>
  is a keyword of Isabelle. It stores the population first and then divides by it, so that a zero
  population raises \<open>ZeroDivisionError\<close> on an instance whose \<open>population\<close> is already
  set. The second component of the result is the instance after the call.
\<close>

definition setup_sird :: "sird \<Rightarrow> int \<Rightarrow> int \<Rightarrow> int \<Rightarrow> int \<Rightarrow> (error + unit) \<times> sird" where
  "setup_sird self pop cases recovered deaths =
     (let self1 = self\<lparr>population := Some pop\<rparr> in
      if pop = 0 then (Inl ZeroDivisionError, self1)
      else
        let initial_S = real_of_int (pop - cases - recovered - deaths) / real_of_int pop;
            initial_R = real_of_int recovered / real_of_int pop;
            initial_D = real_of_int deaths / real_of_int pop;
            initial_I = real_of_int cases / real_of_int pop
        in (Inr (), self1\<lparr>y0 := Some [initial_S, initial_I, initial_R, initial_D]\<rparr>))"

text \<open>
  \<open>solve\<close> reads the four keys of the dictionary (a missing key raises \<open>KeyError\<close>
  before anything is changed), calls \<open>setup\<close>, builds the evaluation grid, calls the
  solver, stores its result in \<open>soln\<close> and returns \<open>self\<close>. The optional argument
  \<open>time_frame\<close> defaults to 300. The first component of the result is the returned
  object, the second the instance after the call.
\<close>

definition solve ::
  "ode_solver \<Rightarrow> sird \<Rightarrow> (string \<rightharpoonup> int) \<Rightarrow> int option \<Rightarrow> (error + sird) \<times> sird" where
  "solve solve_ivp self initial_conditions time_frame_arg =
     (let time_frame = (case time_frame_arg of None \<Rightarrow> 300 | Some tf \<Rightarrow> tf) in
      case (initial_conditions ''population'', initial_conditions ''cases'',
            initial_conditions ''recovered'', initial_conditions ''deaths'') of
        (Some pop, Some cases, Some recovered, Some deaths) \<Rightarrow>
          (case setup_sird self pop cases recovered deaths of
             (Inl e, self1) \<Rightarrow> (Inl e, self1)
           | (Inr _, self1) \<Rightarrow>
               (case y0 self1 of
                  None \<Rightarrow> (Inl AttributeError, self1)
                | Some y0_val \<Rightarrow>
                    (case linspace 0 (real_of_int time_frame) (time_frame * 2) of
                       Inl e \<Rightarrow> (Inl e, self1)
                     | Inr t_eval \<Rightarrow>
                         (case solve_ivp eqns (0, real_of_int time_frame) y0_val
                                 (beta self1, gamma self1, delta self1) t_eval of
                            Inl e \<Rightarrow> (Inl e, self1)
                          | Inr res \<Rightarrow>
                              (let self2 = self1\<lparr>soln := Some res\<rparr>
                               in (Inr self2, self2))))))
      | _ \<Rightarrow> (Inl KeyError, self))"

text \<open>
  \<open>get_params\<close> reads \<open>self.soln\<close> (\<open>AttributeError\<close> when \<open>solve\<close> has not stored
  one), takes the last column of its matrix and returns a dictionary, here the list of
  its items in the order of the literal. The index expression \<open>y[:, -1]\<close> raises
  \<open>TypeError\<close> on the empty Python list of a solution without samples.
\<close>

definition get_params :: "sird \<Rightarrow> error + (string \<times> real) list" where
  "get_params self =
     (case soln self of
        None \<Rightarrow> Inl AttributeError
      | Some res \<Rightarrow>
          if sol_y res = [] then Inl TypeError
          else
            (case last_column (sol_y res) of
               Inl e \<Rightarrow> Inl e
             | Inr params \<Rightarrow>
                 if length params < 4 then Inl IndexError
                 else Inr [(''S'', params ! 0), (''I'', params ! 1), (''R'', params ! 2),
                           (''D'', params ! 3), (''Sum params:'', sum_list params)]))"

section \<open>Binary64 arithmetic\<close>

text \<open>
  A Python float is an IEEE 754 binary64 number: a finite value, an infinity or NaN.
  The finite values are kept as reals. The two zeros are one value here: Python's
  division raises on either, and nothing in the program reads the sign of a zero.
\<close>

datatype pyfloat = Finite real | PInf | NInf | NaN

text \<open>
  \<open>pow2 k\<close> is the power of two with the integer exponent \<open>k\<close>.
\<close>

definition pow2 :: "int \<Rightarrow> real" where
  "pow2 k = (if 0 \<le> k then 2 ^ nat k else 1 / 2 ^ nat (- k))"

text \<open>
  Rounding of a real to the nearest integer, a tie going to the even neighbour.
\<close>

definition rne :: "real \<Rightarrow> int" where
  "rne x =
     (let f = \<lfloor>x\<rfloor>; r = x - real_of_int f
      in if r < 1 / 2 then f
         else if 1 / 2 < r then f + 1
         else if even f then f else f + 1)"

text \<open>
  The spacing of the binary64 numbers around \<open>x\<close> is \<open>pow2 (quantum_exp x)\<close>: for
  \<open>2^e \<le> |x| < 2^(e+1)\<close> the exponent is \<open>e - 52\<close> (a significand of 53 bits), and it is
  never below \<open>-1074\<close>, the spacing of the subnormal numbers. The exponent \<open>e\<close> is read
  off the bit length of \<open>|x| * 2^1074\<close>, rounded down.
\<close>

definition quantum_exp :: "real \<Rightarrow> int" where
  "quantum_exp x = max (bitlen \<lfloor>\<bar>x\<bar> * pow2 1074\<rfloor> - 1127) (- 1074)"

text \<open>
  \<open>round_real x\<close> is the multiple of the spacing nearest to \<open>x\<close>, ties to even.
  \<open>round64\<close> is the rounding of every binary64 operation: a result of magnitude
  \<open>2^1024\<close> or more is an infinity. A real is a binary64 number when rounding leaves it
  as it is.
\<close>

definition round_real :: "real \<Rightarrow> real" where
  "round_real x = real_of_int (rne (x / pow2 (quantum_exp x))) * pow2 (quantum_exp x)"

definition round64 :: "real \<Rightarrow> pyfloat" where
  "round64 x =
     (let y = round_real x
      in if 2 ^ 1024 \<le> y then PInf
         else if y \<le> - (2 ^ 1024) then NInf
         else Finite y)"

definition is_double :: "real \<Rightarrow> bool" where
  "is_double x \<longleftrightarrow> round64 x = Finite x"

text \<open>
  Python's float operators. Addition, subtraction and multiplication never raise: they
  overflow to an infinity and give NaN where IEEE 754 does. Division raises
  \<open>ZeroDivisionError\<close> when the divisor is zero, whatever the dividend.
\<close>

fun fneg :: "pyfloat \<Rightarrow> pyfloat" where
  "fneg (Finite a) = Finite (- a)"
| "fneg PInf = NInf"
| "fneg NInf = PInf"
| "fneg NaN = NaN"

fun fadd :: "pyfloat \<Rightarrow> pyfloat \<Rightarrow> pyfloat" where
  "fadd (Finite a) (Finite b) = round64 (a + b)"
| "fadd NaN _ = NaN"
| "fadd _ NaN = NaN"
| "fadd PInf NInf = NaN"
| "fadd NInf PInf = NaN"
| "fadd PInf _ = PInf"
| "fadd _ PInf = PInf"
| "fadd NInf _ = NInf"
| "fadd _ NInf = NInf"

definition fsub :: "pyfloat \<Rightarrow> pyfloat \<Rightarrow> pyfloat" where
  "fsub a b = fadd a (fneg b)"

definition inf_of_sign :: "bool \<Rightarrow> pyfloat" where
  "inf_of_sign positive = (if positive then PInf else NInf)"

fun fmul :: "pyfloat \<Rightarrow> pyfloat \<Rightarrow> pyfloat" where
  "fmul (Finite a) (Finite b) = round64 (a * b)"
| "fmul NaN _ = NaN"
| "fmul _ NaN = NaN"
| "fmul (Finite a) PInf = (if a = 0 then NaN else inf_of_sign (0 < a))"
| "fmul (Finite a) NInf = (if a = 0 then NaN else inf_of_sign (a < 0))"
| "fmul PInf (Finite b) = (if b = 0 then NaN else inf_of_sign (0 < b))"
| "fmul NInf (Finite b) = (if b = 0 then NaN else inf_of_sign (b < 0))"
| "fmul PInf PInf = PInf"
| "fmul NInf NInf = PInf"
| "fmul PInf NInf = NInf"
| "fmul NInf PInf = NInf"

fun fdiv :: "pyfloat \<Rightarrow> pyfloat \<Rightarrow> error + pyfloat" where
  "fdiv a (Finite b) =
     (if b = 0 then Inl ZeroDivisionError
      else case a of
             Finite x \<Rightarrow> Inr (round64 (x / b))
           | PInf \<Rightarrow> Inr (inf_of_sign (0 < b))
           | NInf \<Rightarrow> Inr (inf_of_sign (b < 0))
           | NaN \<Rightarrow> Inr NaN)"
| "fdiv (Finite x) PInf = Inr (Finite 0)"
| "fdiv (Finite x) NInf = Inr (Finite 0)"
| "fdiv a b = Inr NaN"


subsection \<open>The constructor and \<open>setup\<close> in binary64\<close>

text \<open>
  The six attributes that the constructor sets, as floats.
\<close>

record sird64 =
  R0_64 :: pyfloat
  M_64 :: pyfloat
  P_64 :: pyfloat
  beta_64 :: pyfloat
  gamma_64 :: pyfloat
  delta_64 :: pyfloat

text \<open>
  The constructor as Python evaluates it: the same branches as \<open>SIRD_init\<close>, each
  operator being the float operator. In the branch of the rates \<open>gamma + delta\<close> is
  computed twice, for \<open>P\<close> and for \<open>M\<close>.
\<close>

definition SIRD_init_binary64 ::
  "pyfloat option \<Rightarrow> pyfloat option \<Rightarrow> pyfloat option
     \<Rightarrow> pyfloat option \<Rightarrow> pyfloat option \<Rightarrow> pyfloat option \<Rightarrow> error + sird64" where
  "SIRD_init_binary64 R0_arg M_arg P_arg beta_arg gamma_arg delta_arg =
     (case (R0_arg, M_arg, P_arg) of
        (Some r0, Some m, Some p) \<Rightarrow>
          (case fdiv r0 p of
             Inl e \<Rightarrow> Inl e
           | Inr b \<Rightarrow>
               (case fdiv (fsub (Finite 1) m) p of
                  Inl e \<Rightarrow> Inl e
                | Inr g \<Rightarrow>
                    (case fdiv m p of
                       Inl e \<Rightarrow> Inl e
                     | Inr d \<Rightarrow>
                         Inr \<lparr>R0_64 = r0, M_64 = m, P_64 = p,
                              beta_64 = b, gamma_64 = g, delta_64 = d\<rparr>)))
      | _ \<Rightarrow>
        (case (beta_arg, gamma_arg, delta_arg) of
           (Some b, Some g, Some d) \<Rightarrow>
             (case fdiv (Finite 1) (fadd g d) of
                Inl e \<Rightarrow> Inl e
              | Inr p \<Rightarrow>
                  (case fdiv d (fadd g d) of
                     Inl e \<Rightarrow> Inl e
                   | Inr m \<Rightarrow>
                       Inr \<lparr>R0_64 = fmul b p, M_64 = m, P_64 = p,
                            beta_64 = b, gamma_64 = g, delta_64 = d\<rparr>))
         | _ \<Rightarrow> Inl ValueError))"


subsection \<open>Example inputs\<close>

text \<open>
  The module-level dictionary \<open>initial_conditions\<close> of the source file.
\<close>

definition initial_conditions :: "string \<rightharpoonup> int" where
  "initial_conditions =
     [''population'' \<mapsto> 60000000, ''cases'' \<mapsto> 3000, ''deaths'' \<mapsto> 80, ''recovered'' \<mapsto> 20]"

text \<open>
  The instance that \<open>SIRD(beta=1/2, gamma=1/5, delta=1/20)\<close> constructs.
\<close>

definition example_model :: sird where
  "example_model = \<lparr>R0 = 2, M = 1/5, P = 4, beta = 1/2, gamma = 1/5, delta = 1/20,
        population = None, y0 = None, soln = None\<rparr>"

text \<open>
  The explicit Euler method on the evaluation grid. It is not the solver that the
  program calls; it instantiates the solver parameter where a statement is evaluated at
  a concrete input. Every general statement below holds for an arbitrary solver.
\<close>

fun euler_states ::
  "(real \<Rightarrow> real list \<Rightarrow> real \<Rightarrow> real \<Rightarrow> real \<Rightarrow> error + real list)
     \<Rightarrow> real \<times> real \<times> real \<Rightarrow> real \<Rightarrow> real list \<Rightarrow> real list \<Rightarrow> error + real list list" where
  "euler_states rhs args t y [] = Inr []"
| "euler_states rhs (b, g, d) t y (t' # ts) =
     (case rhs t y b g d of
        Inl e \<Rightarrow> Inl e
      | Inr dy \<Rightarrow>
          (let y' = map2 (\<lambda>v dv. v + (t' - t) * dv) y dy in
           case euler_states rhs (b, g, d) t' y' ts of
             Inl e \<Rightarrow> Inl e
           | Inr ys \<Rightarrow> Inr (y' # ys)))"

definition euler_solver :: ode_solver where
  "euler_solver rhs t_span y_init args t_eval =
     (case euler_states rhs args (fst t_span) y_init t_eval of
        Inl e \<Rightarrow> Inl e
      | Inr ys \<Rightarrow> Inr \<lparr>sol_t = t_eval, sol_y = transpose ys\<rparr>)"

section \<open>Properties\<close>

subsection \<open>Auxiliary facts\<close>

lemma linspace_grid:
  "0 \<le> tf \<Longrightarrow> linspace 0 (real_of_int tf) (tf * 2) =
     Inr (map (\<lambda>i. real i * (real_of_int tf / real_of_int (2 * tf - 1))) [0 ..< nat (2 * tf)])"
  by (auto simp add: linspace_def mult.commute)

lemma setup_sird_nonzero:
  "pop \<noteq> 0 \<Longrightarrow> setup_sird self pop c r d =
     (Inr (), self\<lparr>population := Some pop,
                    y0 := Some [real_of_int (pop - c - r - d) / real_of_int pop,
                                real_of_int c / real_of_int pop,
                                real_of_int r / real_of_int pop,
                                real_of_int d / real_of_int pop]\<rparr>)"
  by (simp add: setup_sird_def Let_def)

lemma setup_sird_Inr:
  assumes "setup_sird self pop c r d = (Inr u, self1)"
  shows "pop \<noteq> 0"
    and "self1 = self\<lparr>population := Some pop,
                    y0 := Some [real_of_int (pop - c - r - d) / real_of_int pop,
                                real_of_int c / real_of_int pop,
                                real_of_int r / real_of_int pop,
                                real_of_int d / real_of_int pop]\<rparr>"
proof -
  show nz: "pop \<noteq> 0" using assms by (auto simp add: setup_sird_def)
  show "self1 = self\<lparr>population := Some pop,
                    y0 := Some [real_of_int (pop - c - r - d) / real_of_int pop,
                                real_of_int c / real_of_int pop,
                                real_of_int r / real_of_int pop,
                                real_of_int d / real_of_int pop]\<rparr>"
    using assms setup_sird_nonzero [OF nz, of self c r d] by simp
qed

lemma solve_after_setup:
  assumes "ic ''population'' = Some pop" "ic ''cases'' = Some c"
    "ic ''recovered'' = Some r" "ic ''deaths'' = Some d"
    and "setup_sird self pop c r d = (Inr (), self1)" and "y0 self1 = Some y_init"
    and "0 \<le> tf"
  shows "solve ivp self ic (Some tf) =
     (case ivp eqns (0, real_of_int tf) y_init (beta self, gamma self, delta self)
             (map (\<lambda>i. real i * (real_of_int tf / real_of_int (2 * tf - 1)))
                [0 ..< nat (2 * tf)]) of
        Inl e \<Rightarrow> (Inl e, self1)
      | Inr res \<Rightarrow> (Inr (self1\<lparr>soln := Some res\<rparr>), self1\<lparr>soln := Some res\<rparr>))"
proof -
  have "self1 = self\<lparr>population := Some pop,
                    y0 := Some [real_of_int (pop - c - r - d) / real_of_int pop,
                                real_of_int c / real_of_int pop,
                                real_of_int r / real_of_int pop,
                                real_of_int d / real_of_int pop]\<rparr>"
    using assms(5) by (rule setup_sird_Inr)
  then have rates: "beta self1 = beta self" "gamma self1 = gamma self" "delta self1 = delta self"
    by simp_all
  show ?thesis
    using assms(1-4) assms(6)
    by (simp add: solve_def assms(5) rates linspace_grid [OF assms(7)] Let_def split: sum.splits)
qed

lemma solve_returns_self:
  assumes "solve ivp self ic tf = (Inr ret, self')"
  shows "ret = self' \<and> (\<exists>res. soln self' = Some res)"
  using assms
  by (auto simp add: solve_def Let_def split: option.splits sum.splits prod.splits unit.splits)

lemma solve_default: "solve ivp self ic None = solve ivp self ic (Some 300)"
  by (simp add: solve_def)

lemma get_params_four_rows:
  assumes "soln self = Some res" and "sol_y res = [Ss, Is, Rs, Ds]"
    and "Ss \<noteq> []" "Is \<noteq> []" "Rs \<noteq> []" "Ds \<noteq> []"
  shows "get_params self =
     Inr [(''S'', last Ss), (''I'', last Is), (''R'', last Rs), (''D'', last Ds),
          (''Sum params:'', last Ss + last Is + last Rs + last Ds)]"
  using assms by (auto simp add: get_params_def last_column_def)

lemma example_run:
  "solve euler_solver example_model initial_conditions (Some 1) =
     (Inr (example_model\<lparr>population := Some 60000000,
             y0 := Some [599969 / 600000, 1 / 20000, 1 / 3000000, 1 / 750000],
             soln := Some \<lparr>sol_t = [0, 1],
                sol_y = [[599969 / 600000, 7999386677 / 8000000000],
                         [1 / 20000, 1499969 / 24000000000],
                         [1 / 3000000, 31 / 3000000],
                         [1 / 750000, 23 / 6000000]]\<rparr>\<rparr>),
      example_model\<lparr>population := Some 60000000,
             y0 := Some [599969 / 600000, 1 / 20000, 1 / 3000000, 1 / 750000],
             soln := Some \<lparr>sol_t = [0, 1],
                sol_y = [[599969 / 600000, 7999386677 / 8000000000],
                         [1 / 20000, 1499969 / 24000000000],
                         [1 / 3000000, 31 / 3000000],
                         [1 / 750000, 23 / 6000000]]\<rparr>\<rparr>)"
  by (simp add: solve_def initial_conditions_def setup_sird_def linspace_def upt_rec
      example_model_def euler_solver_def eqns_def dSdt_def dIdt_def dRdt_def dDdt_def Let_def
      transpose.simps)

subsection \<open>Facts about rounding\<close>

lemma pow2_powr: "pow2 k = 2 powr real_of_int k"
  by (simp add: pow2_def powr_real_of_int divide_inverse)

lemma pow2_pos: "0 < pow2 k"
  by (simp add: pow2_powr)

lemma pow2_add: "pow2 (a + b) = pow2 a * pow2 b"
  by (simp add: pow2_powr powr_add)

lemma pow2_mono: "a \<le> b \<Longrightarrow> pow2 a \<le> pow2 b"
  by (simp add: pow2_powr)

lemma pow2_nat: "pow2 (int n) = 2 ^ n"
  by (simp add: pow2_def)

lemma pow2_multiple: "k \<le> j \<Longrightarrow> pow2 j = real_of_int (2 ^ nat (j - k)) * pow2 k"
proof -
  assume "k \<le> j"
  then have "pow2 j = pow2 (int (nat (j - k)) + k)" by simp
  also have "\<dots> = pow2 (int (nat (j - k))) * pow2 k" by (rule pow2_add)
  also have "pow2 (int (nat (j - k))) = real_of_int (2 ^ nat (j - k))"
    by (simp only: pow2_nat of_int_power of_int_numeral)
  finally show ?thesis .
qed

lemma rne_upper: "x \<le> real_of_int n \<Longrightarrow> rne x \<le> n"
proof -
  assume a: "x \<le> real_of_int n"
  then have f: "\<lfloor>x\<rfloor> \<le> n" by (simp add: floor_le_iff)
  show ?thesis
  proof (cases "\<lfloor>x\<rfloor> = n")
    case True
    with a have "x = real_of_int \<lfloor>x\<rfloor>" by linarith
    then show ?thesis using True by (simp add: rne_def Let_def)
  next
    case False
    with f have "\<lfloor>x\<rfloor> + 1 \<le> n" by simp
    then show ?thesis by (simp add: rne_def Let_def)
  qed
qed

lemma rne_lower: "real_of_int n \<le> x \<Longrightarrow> n \<le> rne x"
proof -
  assume "real_of_int n \<le> x"
  then have "n \<le> \<lfloor>x\<rfloor>" by (simp add: le_floor_iff)
  then show ?thesis by (simp add: rne_def Let_def)
qed

lemma rne_int: "rne (real_of_int n) = n"
  by (simp add: rne_def)

lemma scaled_bitlen_upper:
  "\<bar>x\<bar> < pow2 (bitlen \<lfloor>\<bar>x\<bar> * pow2 1074\<rfloor> - 1074)"
proof -
  let ?n = "\<lfloor>\<bar>x\<bar> * pow2 1074\<rfloor>"
  have "?n < 2 ^ nat (bitlen ?n)"
    using bitlen_le_iff_power [of ?n "bitlen ?n"] by simp
  then have "?n + 1 \<le> 2 ^ nat (bitlen ?n)" by linarith
  then have "real_of_int (?n + 1) \<le> real_of_int (2 ^ nat (bitlen ?n))"
    by (simp only: of_int_le_iff)
  then have "real_of_int ?n + 1 \<le> pow2 (int (nat (bitlen ?n)))"
    by (simp only: pow2_nat of_int_power of_int_numeral of_int_add of_int_1)
  moreover have "int (nat (bitlen ?n)) = bitlen ?n"
    using bitlen_nonneg [of ?n] by simp
  ultimately have "real_of_int ?n + 1 \<le> pow2 (bitlen ?n)" by simp
  moreover have "\<bar>x\<bar> * pow2 1074 < real_of_int ?n + 1" by linarith
  ultimately have "\<bar>x\<bar> * pow2 1074 < pow2 (bitlen ?n)" by linarith
  moreover have "pow2 (bitlen ?n) = pow2 (bitlen ?n - 1074) * pow2 1074"
    using pow2_add [of "bitlen ?n - 1074" 1074] by simp
  ultimately show ?thesis using pow2_pos [of 1074] by simp
qed

lemma scaled_bitlen_lower:
  assumes "0 < bitlen \<lfloor>\<bar>x\<bar> * pow2 1074\<rfloor>"
  shows "pow2 (bitlen \<lfloor>\<bar>x\<bar> * pow2 1074\<rfloor> - 1075) \<le> \<bar>x\<bar>"
proof -
  let ?n = "\<lfloor>\<bar>x\<bar> * pow2 1074\<rfloor>"
  from assms have pos: "0 < ?n" using bitlen_eq_zero_iff [of ?n] by linarith
  have "2 ^ nat (bitlen ?n - 1) \<le> ?n" using bitlen_bounds [OF pos] by simp
  then have "real_of_int (2 ^ nat (bitlen ?n - 1)) \<le> real_of_int ?n"
    by (simp only: of_int_le_iff)
  then have "pow2 (int (nat (bitlen ?n - 1))) \<le> real_of_int ?n"
    by (simp only: pow2_nat of_int_power of_int_numeral)
  moreover have "int (nat (bitlen ?n - 1)) = bitlen ?n - 1"
    using assms by simp
  ultimately have "pow2 (bitlen ?n - 1) \<le> real_of_int ?n" by simp
  moreover have "real_of_int ?n \<le> \<bar>x\<bar> * pow2 1074" by linarith
  ultimately have "pow2 (bitlen ?n - 1) \<le> \<bar>x\<bar> * pow2 1074" by linarith
  moreover have "pow2 (bitlen ?n - 1) = pow2 (bitlen ?n - 1075) * pow2 1074"
    using pow2_add [of "bitlen ?n - 1075" 1074] by simp
  ultimately show ?thesis using pow2_pos [of 1074] by simp
qed

lemma quantum_exp_upper: "\<bar>x\<bar> < pow2 (quantum_exp x + 53)"
proof -
  have "bitlen \<lfloor>\<bar>x\<bar> * pow2 1074\<rfloor> - 1074 \<le> quantum_exp x + 53"
    by (simp add: quantum_exp_def)
  then show ?thesis
    using scaled_bitlen_upper [of x] pow2_mono by fastforce
qed

lemma quantum_exp_lower:
  assumes "- 1074 < quantum_exp x"
  shows "pow2 (quantum_exp x + 52) \<le> \<bar>x\<bar>"
proof -
  from assms have q: "quantum_exp x = bitlen \<lfloor>\<bar>x\<bar> * pow2 1074\<rfloor> - 1127"
    by (simp add: quantum_exp_def max_def split: if_splits)
  with assms have "0 < bitlen \<lfloor>\<bar>x\<bar> * pow2 1074\<rfloor>" by simp
  from scaled_bitlen_lower [OF this] show ?thesis by (simp add: q)
qed

lemma quantum_exp_mono: "\<bar>x\<bar> \<le> \<bar>y\<bar> \<Longrightarrow> quantum_exp x \<le> quantum_exp y"
proof -
  assume "\<bar>x\<bar> \<le> \<bar>y\<bar>"
  then have "\<lfloor>\<bar>x\<bar> * pow2 1074\<rfloor> \<le> \<lfloor>\<bar>y\<bar> * pow2 1074\<rfloor>"
    using pow2_pos [of 1074] by (intro floor_mono) simp
  then have "bitlen \<lfloor>\<bar>x\<bar> * pow2 1074\<rfloor> \<le> bitlen \<lfloor>\<bar>y\<bar> * pow2 1074\<rfloor>"
    by (simp add: bitlen_def floorlog_mono)
  then show ?thesis by (simp add: quantum_exp_def)
qed

lemma quantum_exp_ge: "- 1074 \<le> quantum_exp x"
  by (simp add: quantum_exp_def)

lemma quantum_exp_eqI:
  assumes "pow2 e \<le> \<bar>x\<bar>" and "\<bar>x\<bar> < pow2 (e + 1)"
  shows "quantum_exp x = max (e - 52) (- 1074)"
proof -
  let ?L = "bitlen \<lfloor>\<bar>x\<bar> * pow2 1074\<rfloor>"
  have up: "\<bar>x\<bar> < pow2 (?L - 1074)" by (rule scaled_bitlen_upper)
  have "pow2 e < pow2 (?L - 1074)" using assms(1) up by linarith
  then have 1: "e < ?L - 1074"
    using pow2_mono [of "?L - 1074" e] by (cases "e < ?L - 1074") auto
  show ?thesis
  proof (cases "0 < ?L")
    case True
    from scaled_bitlen_lower [OF True] assms(2) have "pow2 (?L - 1075) < pow2 (e + 1)" by linarith
    then have "?L - 1075 < e + 1"
      using pow2_mono [of "e + 1" "?L - 1075"] by (cases "?L - 1075 < e + 1") auto
    with 1 have "?L = e + 1075" by linarith
    then show ?thesis by (simp add: quantum_exp_def)
  next
    case False
    then have "?L = 0" using bitlen_nonneg [of "\<lfloor>\<bar>x\<bar> * pow2 1074\<rfloor>"] by linarith
    with 1 show ?thesis by (simp add: quantum_exp_def)
  qed
qed

lemma round_real_upper:
  assumes "x \<le> real_of_int n * pow2 (quantum_exp x)"
  shows "round_real x \<le> real_of_int n * pow2 (quantum_exp x)"
proof -
  have q: "0 < pow2 (quantum_exp x)" by (rule pow2_pos)
  with assms have "x / pow2 (quantum_exp x) \<le> real_of_int n"
    by (simp add: pos_divide_le_eq)
  then have "rne (x / pow2 (quantum_exp x)) \<le> n" by (rule rne_upper)
  then have "real_of_int (rne (x / pow2 (quantum_exp x))) \<le> real_of_int n" by simp
  with q show ?thesis unfolding round_real_def by (simp add: mult_right_mono)
qed

lemma round_real_lower:
  assumes "real_of_int n * pow2 (quantum_exp x) \<le> x"
  shows "real_of_int n * pow2 (quantum_exp x) \<le> round_real x"
proof -
  have q: "0 < pow2 (quantum_exp x)" by (rule pow2_pos)
  with assms have "real_of_int n \<le> x / pow2 (quantum_exp x)"
    by (simp add: pos_le_divide_eq)
  then have "n \<le> rne (x / pow2 (quantum_exp x))" by (rule rne_lower)
  then have "real_of_int n \<le> real_of_int (rne (x / pow2 (quantum_exp x)))" by simp
  with q show ?thesis unfolding round_real_def by (simp add: mult_right_mono)
qed

lemma round_real_nonneg: "0 \<le> x \<Longrightarrow> 0 \<le> round_real x"
  using round_real_lower [of 0 x] by simp

lemma quantum_le_self:
  assumes "pow2 (- 1074) \<le> \<bar>x\<bar>"
  shows "pow2 (quantum_exp x) \<le> \<bar>x\<bar>"
proof (cases "quantum_exp x = - 1074")
  case True
  with assms show ?thesis by simp
next
  case False
  then have "- 1074 < quantum_exp x" using quantum_exp_ge [of x] by linarith
  then have "pow2 (quantum_exp x + 52) \<le> \<bar>x\<bar>" by (rule quantum_exp_lower)
  moreover have "pow2 (quantum_exp x) \<le> pow2 (quantum_exp x + 52)" by (rule pow2_mono) simp
  ultimately show ?thesis by linarith
qed

lemma round_real_pos:
  assumes "pow2 (- 1074) \<le> x"
  shows "0 < round_real x"
proof -
  have "0 < pow2 (- 1074)" by (rule pow2_pos)
  with assms have x: "\<bar>x\<bar> = x" by simp
  have "pow2 (quantum_exp x) \<le> \<bar>x\<bar>" using assms x by (intro quantum_le_self) simp
  with x have "real_of_int 1 * pow2 (quantum_exp x) \<le> x" by simp
  then have "real_of_int 1 * pow2 (quantum_exp x) \<le> round_real x" by (rule round_real_lower)
  then show ?thesis using pow2_pos [of "quantum_exp x"] by simp
qed


lemma round_real_le_pow2:
  assumes "\<bar>x\<bar> \<le> pow2 j" and "- 1022 \<le> j"
  shows "\<bar>round_real x\<bar> \<le> pow2 j"
proof -
  have "quantum_exp (pow2 j) = max (j - 52) (- 1074)"
    using pow2_pos [of j] pow2_mono [of j "j + 1"] pow2_add [of j 1]
    by (intro quantum_exp_eqI) (simp_all add: pow2_def [of 1])
  with assms(2) have "quantum_exp (pow2 j) = j - 52" by simp
  moreover have "quantum_exp x \<le> quantum_exp (pow2 j)"
    using assms(1) pow2_pos [of j] by (intro quantum_exp_mono) simp
  ultimately have k: "quantum_exp x \<le> j" by simp
  let ?n = "2 ^ nat (j - quantum_exp x) :: int"
  have m: "pow2 j = real_of_int ?n * pow2 (quantum_exp x)"
    using k by (rule pow2_multiple)
  have "x \<le> real_of_int ?n * pow2 (quantum_exp x)" using assms(1) m by linarith
  then have up: "round_real x \<le> pow2 j" using round_real_upper [of x ?n] m by simp
  have "real_of_int (- ?n) * pow2 (quantum_exp x) \<le> x" using assms(1) m by (simp del: of_int_power)
  then have "real_of_int (- ?n) * pow2 (quantum_exp x) \<le> round_real x" by (rule round_real_lower)
  then have "- pow2 j \<le> round_real x" using m by (simp del: of_int_power)
  with up show ?thesis by linarith
qed

lemma round_real_unit_interval:
  assumes "0 \<le> x" and "x \<le> 1"
  shows "0 \<le> round_real x \<and> round_real x \<le> 1"
proof -
  have "\<bar>round_real x\<bar> \<le> pow2 0"
    using assms by (intro round_real_le_pow2) (simp_all add: pow2_def)
  then show ?thesis using round_real_nonneg [OF assms(1)] by (simp add: pow2_def)
qed

lemma is_double_round_real: "is_double d \<Longrightarrow> round_real d = d"
  by (simp add: is_double_def round64_def Let_def split: if_splits)

lemma round_real_ge_double:
  assumes "is_double d" and "0 \<le> d" and "d \<le> x"
  shows "d \<le> round_real x"
proof -
  have abs: "\<bar>d\<bar> \<le> \<bar>x\<bar>" using assms by simp
  then have le: "quantum_exp d \<le> quantum_exp x" by (rule quantum_exp_mono)
  show ?thesis
  proof (cases "quantum_exp d = quantum_exp x")
    case True
    let ?n = "rne (d / pow2 (quantum_exp d))"
    have "d = real_of_int ?n * pow2 (quantum_exp x)"
      using is_double_round_real [OF assms(1)] True by (simp add: round_real_def)
    then show ?thesis using round_real_lower [of ?n x] assms(3) by simp
  next
    case False
    with le have lt: "quantum_exp d < quantum_exp x" by simp
    then have "- 1074 < quantum_exp x" using quantum_exp_ge [of d] by linarith
    then have low: "pow2 (quantum_exp x + 52) \<le> \<bar>x\<bar>" by (rule quantum_exp_lower)
    have "\<bar>d\<bar> < pow2 (quantum_exp d + 53)" by (rule quantum_exp_upper)
    moreover have "pow2 (quantum_exp d + 53) \<le> pow2 (quantum_exp x + 52)"
      using lt by (intro pow2_mono) simp
    ultimately have d: "d < pow2 (quantum_exp x + 52)" by linarith
    have m: "pow2 (quantum_exp x + 52) = real_of_int (2 ^ nat 52) * pow2 (quantum_exp x)"
      using pow2_multiple [of "quantum_exp x" "quantum_exp x + 52"] by simp
    have "0 \<le> x" using assms by simp
    with low m have "real_of_int (2 ^ nat 52) * pow2 (quantum_exp x) \<le> x" by simp
    then have "real_of_int (2 ^ nat 52) * pow2 (quantum_exp x) \<le> round_real x"
      by (rule round_real_lower)
    with m d show ?thesis by linarith
  qed
qed

lemma quantum_exp_small:
  assumes "\<bar>x\<bar> < pow2 (- 1022)"
  shows "quantum_exp x = - 1074"
proof (rule ccontr)
  assume "quantum_exp x \<noteq> - 1074"
  then have k: "- 1074 < quantum_exp x" using quantum_exp_ge [of x] by linarith
  then have "pow2 (quantum_exp x + 52) \<le> \<bar>x\<bar>" by (rule quantum_exp_lower)
  moreover have "pow2 (- 1022) \<le> pow2 (quantum_exp x + 52)"
    using k by (intro pow2_mono) simp
  ultimately show False using assms by linarith
qed

lemma round_real_exact:
  assumes "x = real_of_int n * pow2 k" and "\<bar>n\<bar> < 2 ^ 53"
    and "2 ^ 52 \<le> \<bar>n\<bar> \<and> - 1074 \<le> k \<or> k = - 1074"
  shows "round_real x = x"
proof -
  have ax: "\<bar>x\<bar> = real_of_int \<bar>n\<bar> * pow2 k"
    using assms(1) pow2_pos [of k] by (simp add: abs_mult)
  have m52: "pow2 (k + 52) = real_of_int (2 ^ nat 52) * pow2 k"
    using pow2_multiple [of k "k + 52"] by simp
  have m53: "pow2 (k + 52 + 1) = real_of_int (2 ^ nat 53) * pow2 k"
    using pow2_multiple [of k "k + 52 + 1"] by simp
  have "quantum_exp x = k"
  proof (cases "2 ^ 52 \<le> \<bar>n\<bar> \<and> - 1074 \<le> k")
    case True
    then have "(2 ^ nat 52 :: int) \<le> \<bar>n\<bar>" by simp
    then have "real_of_int (2 ^ nat 52) \<le> real_of_int \<bar>n\<bar>" by (simp only: of_int_le_iff)
    then have "real_of_int (2 ^ nat 52) * pow2 k \<le> real_of_int \<bar>n\<bar> * pow2 k"
      using pow2_pos [of k] by (intro mult_right_mono) simp_all
    with ax m52 have low: "pow2 (k + 52) \<le> \<bar>x\<bar>" by linarith
    from assms(2) have "\<bar>n\<bar> < (2 ^ nat 53 :: int)" by simp
    then have "real_of_int \<bar>n\<bar> < real_of_int (2 ^ nat 53)" by (simp only: of_int_less_iff)
    then have "real_of_int \<bar>n\<bar> * pow2 k < real_of_int (2 ^ nat 53) * pow2 k"
      using pow2_pos [of k] by (intro mult_strict_right_mono) simp_all
    with ax m53 have up: "\<bar>x\<bar> < pow2 (k + 52 + 1)" by linarith
    from quantum_exp_eqI [OF low up] True show ?thesis by simp
  next
    case False
    with assms(3) have k: "k = - 1074" and n: "\<bar>n\<bar> < 2 ^ 52" by auto
    from n have "\<bar>n\<bar> < (2 ^ nat 52 :: int)" by simp
    then have "real_of_int \<bar>n\<bar> < real_of_int (2 ^ nat 52)" by (simp only: of_int_less_iff)
    then have "real_of_int \<bar>n\<bar> * pow2 k < real_of_int (2 ^ nat 52) * pow2 k"
      using pow2_pos [of k] by (intro mult_strict_right_mono) simp_all
    with ax m52 have "\<bar>x\<bar> < pow2 (k + 52)" by linarith
    then have "\<bar>x\<bar> < pow2 (- 1022)" using k by simp
    then show ?thesis using k by (simp add: quantum_exp_small)
  qed
  then show ?thesis
    using assms(1) pow2_pos [of k] by (simp add: round_real_def rne_int)
qed


lemma round64_finite:
  assumes "\<bar>x\<bar> \<le> pow2 1023"
  shows "round64 x = Finite (round_real x)"
proof -
  have "\<bar>round_real x\<bar> \<le> pow2 1023" using assms by (rule round_real_le_pow2) simp
  moreover have "pow2 1023 < 2 ^ 1024" by (simp add: pow2_def)
  ultimately have "\<not> 2 ^ 1024 \<le> round_real x" and "\<not> round_real x \<le> - (2 ^ 1024)"
    by linarith+
  then show ?thesis unfolding round64_def Let_def by (simp only: if_False)
qed

lemma round64_exact:
  assumes "x = real_of_int n * pow2 k" and "\<bar>n\<bar> < 2 ^ 53"
    and "2 ^ 52 \<le> \<bar>n\<bar> \<and> - 1074 \<le> k \<or> k = - 1074" and "\<bar>x\<bar> \<le> pow2 1023"
  shows "round64 x = Finite x"
  using round64_finite [OF assms(4)] round_real_exact [OF assms(1-3)] by simp

lemma round64_Finite_D:
  assumes "round64 x = Finite y"
  shows "y = round_real x" and "round_real x < 2 ^ 1024" and "- (2 ^ 1024) < round_real x"
  using assms by (simp_all add: round64_def Let_def split: if_splits)

lemma round64_nonneg_cases:
  assumes "0 \<le> x"
  shows "round64 x = PInf \<or> (\<exists>y. round64 x = Finite y \<and> 0 \<le> y)"
proof -
  have "0 \<le> round_real x" using assms by (rule round_real_nonneg)
  moreover have "(0::real) < 2 ^ 1024" by simp
  ultimately have "\<not> round_real x \<le> - (2 ^ 1024)" by linarith
  then show ?thesis
    using \<open>0 \<le> round_real x\<close> unfolding round64_def Let_def by (simp del: power_numeral)
qed

lemma round64_pos_cases:
  assumes "pow2 (- 1074) \<le> x"
  shows "round64 x = PInf \<or> (\<exists>y. round64 x = Finite y \<and> 0 < y)"
proof -
  have "0 < pow2 (- 1074)" by (rule pow2_pos)
  with assms have "0 \<le> x" by linarith
  then consider "round64 x = PInf" | y where "round64 x = Finite y"
    using round64_nonneg_cases by blast
  then show ?thesis
  proof cases
    case 1
    then show ?thesis by simp
  next
    case 2
    then have "y = round_real x" by (rule round64_Finite_D)
    then have "0 < y" using round_real_pos [OF assms] by simp
    with 2 show ?thesis by simp
  qed
qed

lemma round64_unit_interval:
  assumes "0 \<le> x" and "x \<le> 1"
  shows "\<exists>y. round64 x = Finite y \<and> 0 \<le> y \<and> y \<le> 1"
proof -
  have "\<bar>x\<bar> \<le> pow2 1023" using assms pow2_mono [of 0 1023] by (simp add: pow2_def [of 0])
  then have "round64 x = Finite (round_real x)" by (rule round64_finite)
  then show ?thesis using round_real_unit_interval [OF assms] by simp
qed

lemma round64_0: "round64 0 = Finite 0"
  using pow2_pos [of 1023] by (intro round64_exact [of 0 0 "- 1074"]) simp_all

lemma round64_1: "round64 1 = Finite 1"
  by (rule round64_exact [of 1 "2 ^ 52" "- 52"]) (simp_all add: pow2_def)

lemma round64_half: "round64 (1 / 2) = Finite (1 / 2)"
  by (rule round64_exact [of "1 / 2" "2 ^ 52" "- 53"]) (simp_all add: pow2_def)


lemma round64_pow2_1023: "round64 (pow2 1023) = Finite (pow2 1023)"
  by (rule round64_exact [of "pow2 1023" "2 ^ 52" 971]) (simp_all add: pow2_def)


lemma round64_overflow: "round64 (pow2 1023 + pow2 1023) = PInf"
proof -
  have "round_real (pow2 1023 + pow2 1023) = pow2 1023 + pow2 1023"
    by (rule round_real_exact [of _ "2 ^ 52" 972]) (simp_all add: pow2_def)
  moreover have "2 ^ 1024 \<le> pow2 1023 + pow2 1023" by (simp add: pow2_def)
  ultimately show ?thesis unfolding round64_def Let_def by (simp only: if_True)
qed

lemma round64_half_plus_half: "round64 (1 / 2 + 1 / 2) = Finite 1"
  by (simp add: round64_1)








lemma get_params_empty:
  assumes "soln self = Some res" and "sol_y res = []"
  shows "get_params self = Inl TypeError"
  using assms by (simp add: get_params_def)

subsection \<open>The right-hand side\<close>

text \<open>
  C1: for every state \<open>(S, I, R, D)\<close> and all rates, \<open>eqns\<close> returns the four
  derivatives \<open>-beta*S*I\<close>, \<open>beta*S*I - gamma*I - delta*I\<close>, \<open>gamma*I\<close> and
  \<open>delta*I\<close>, and their sum is exactly 0.
\<close>

theorem eqns_sum_zero:
  "eqns t [S, I, R, D] \<beta> \<gamma> \<delta> =
     Inr [- \<beta> * S * I, \<beta> * S * I - \<gamma> * I - \<delta> * I, \<gamma> * I, \<delta> * I]
   \<and> (- \<beta> * S * I) + (\<beta> * S * I - \<gamma> * I - \<delta> * I) + \<gamma> * I + \<delta> * I = 0
   \<and> (\<exists>ds. eqns t [S, I, R, D] \<beta> \<gamma> \<delta> = Inr ds \<and> sum_list ds = 0)"
  by (simp add: eqns_def dSdt_def dIdt_def dRdt_def dDdt_def)

text \<open>
  C10: \<open>eqns\<close> does not depend on the time argument nor on the components \<open>R\<close> and
  \<open>D\<close> of the state: two calls that agree on \<open>S\<close>, \<open>I\<close> and the rates return the same
  derivatives.
\<close>

theorem eqns_independent_of_t_R_D:
  "eqns t [S, I, R, D] \<beta> \<gamma> \<delta> = eqns t' [S, I, R', D'] \<beta> \<gamma> \<delta>"
  by (simp add: eqns_def)

subsection \<open>The constructor\<close>




text \<open>
  C3: when \<open>R0\<close>, \<open>M\<close> and \<open>P\<close> are all supplied and \<open>P\<close> is not zero, the constructor
  returns the instance with \<open>beta = R0 / P\<close>, \<open>gamma = (1 - M) / P\<close> and
  \<open>delta = M / P\<close>, whatever is supplied for the rates. For \<open>R0 = 2.5\<close>, \<open>M = 0.02\<close>,
  \<open>P = 5.1\<close> the rates are 0.4902, 0.1922 and 0.00392 up to half a unit of the last
  digit given.
\<close>

theorem init_from_descriptors:
  "(p \<noteq> 0 \<longrightarrow>
      SIRD_init (Some r0) (Some m) (Some p) b g d =
        Inr \<lparr>R0 = r0, M = m, P = p, beta = r0 / p, gamma = (1 - m) / p, delta = m / p,
             population = None, y0 = None, soln = None\<rparr>)
   \<and> (\<exists>s. SIRD_init (Some 2.5) (Some 0.02) (Some 5.1) None None None = Inr s
        \<and> \<bar>beta s - 0.4902\<bar> < 0.00005 \<and> \<bar>gamma s - 0.1922\<bar> < 0.00005
        \<and> \<bar>delta s - 0.00392\<bar> < 0.000005)"
  by (simp add: SIRD_init_def)

text \<open>
  The formulas at \<open>R0 = 2.5\<close>, \<open>M = 0.02\<close>, \<open>P = 5.1\<close>.
\<close>

theorem init_from_descriptors_witness:
  "(5.1::real) \<noteq> 0
   \<and> SIRD_init (Some 2.5) (Some 0.02) (Some 5.1) None None None =
        Inr \<lparr>R0 = 2.5, M = 0.02, P = 5.1, beta = 2.5 / 5.1, gamma = (1 - 0.02) / 5.1,
             delta = 0.02 / 5.1, population = None, y0 = None, soln = None\<rparr>"
  using init_from_descriptors [of "5.1" "2.5" "0.02" None None None] by simp

text \<open>
  C5: the constructor raises \<open>ValueError\<close> exactly when neither the group
  \<open>R0, M, P\<close> nor the group \<open>beta, gamma, delta\<close> is fully supplied, for instance when
  only \<open>R0\<close> and \<open>M\<close> are given. When both groups are fully supplied the result is
  that of the descriptor group alone: the supplied rates are ignored, and the rates of
  the instance are \<open>R0 / P\<close>, \<open>(1 - M) / P\<close> and \<open>M / P\<close>.
\<close>

theorem init_parameter_groups:
  "(SIRD_init r0 m p b g d = Inl ValueError \<longleftrightarrow>
      \<not> (r0 \<noteq> None \<and> m \<noteq> None \<and> p \<noteq> None) \<and> \<not> (b \<noteq> None \<and> g \<noteq> None \<and> d \<noteq> None))
   \<and> SIRD_init (Some r0') (Some m') None None None None = Inl ValueError
   \<and> SIRD_init (Some r0') (Some m') (Some p') (Some b') (Some g') (Some d') =
       SIRD_init (Some r0') (Some m') (Some p') None None None
   \<and> (p' \<noteq> 0 \<longrightarrow>
        (\<exists>s. SIRD_init (Some r0') (Some m') (Some p') (Some b') (Some g') (Some d') = Inr s
           \<and> R0 s = r0' \<and> M s = m' \<and> P s = p'
           \<and> beta s = r0' / p' \<and> gamma s = (1 - m') / p' \<and> delta s = m' / p'))"
  by (auto simp add: SIRD_init_def split: option.splits)

text \<open>
  Two partial groups that are rejected, and a call with both groups.
\<close>

theorem init_parameter_groups_witness:
  "SIRD_init (Some 2.5) (Some 0.02) None None None None = Inl ValueError
   \<and> SIRD_init None None None None (Some 0.2) (Some 0.1) = Inl ValueError
   \<and> (4::real) \<noteq> 0
   \<and> (\<exists>s. SIRD_init (Some 2) (Some (1/5)) (Some 4) (Some 7) (Some 8) (Some 9) = Inr s
         \<and> beta s = 1/2 \<and> gamma s = 1/5 \<and> delta s = 1/20)"
  using init_parameter_groups [of "Some 2.5" "Some 0.02" None None None None 2 "1/5" 4 7 8 9]
    init_parameter_groups [of None None None None "Some 0.2" "Some 0.1" 2 "1/5" 4 7 8 9]
  by auto

text \<open>
  C6: a construction from the rates (the descriptor group not fully supplied) with
  \<open>gamma = 0\<close> and \<open>delta = 0\<close> raises \<open>ZeroDivisionError\<close>, from the division in
  \<open>P = 1 / (gamma + delta)\<close>, and returns no instance.
\<close>

theorem init_degenerate_rates:
  "\<not> (r0 \<noteq> None \<and> m \<noteq> None \<and> p \<noteq> None) \<Longrightarrow>
     SIRD_init r0 m p (Some b) (Some 0) (Some 0) = Inl ZeroDivisionError"
  by (auto simp add: SIRD_init_def split: option.splits)

text \<open>
  The degenerate rates with \<open>beta = 0.3\<close>.
\<close>

theorem init_degenerate_rates_witness:
  "SIRD_init None None None (Some 0.3) (Some 0) (Some 0) = Inl ZeroDivisionError"
  using init_degenerate_rates [of None None None "0.3"] by simp

text \<open>
  In binary64 rates within the ranges can give a descriptor outside them: for
  \<open>beta = 1\<close> and \<open>gamma = delta = 2^1023\<close> the sum \<open>gamma + delta\<close> overflows to
  infinity and \<open>P = 1 / (gamma + delta)\<close> is 0.
\<close>

theorem init_binary64_overflow:
  "is_double 1 \<and> is_double (pow2 1023)
   \<and> (0::real) \<le> 1 \<and> 0 \<le> pow2 1023 \<and> 0 < pow2 1023 + pow2 1023
   \<and> SIRD_init_binary64 None None None
         (Some (Finite 1)) (Some (Finite (pow2 1023))) (Some (Finite (pow2 1023))) =
       Inr \<lparr>R0_64 = Finite 0, M_64 = Finite 0, P_64 = Finite 0,
            beta_64 = Finite 1, gamma_64 = Finite (pow2 1023), delta_64 = Finite (pow2 1023)\<rparr>"
proof -
  have d: "is_double 1" "is_double (pow2 1023)"
    by (simp_all only: is_double_def round64_1 round64_pow2_1023)
  have s: "(0::real) \<le> 1" "0 \<le> pow2 1023" "0 < pow2 1023 + pow2 1023"
    using pow2_pos [of 1023] by simp_all
  have sum: "fadd (Finite (pow2 1023)) (Finite (pow2 1023)) = PInf"
    by (simp only: fadd.simps round64_overflow)
  have p: "fdiv (Finite 1) PInf = Inr (Finite 0)" by simp
  have m: "fdiv (Finite (pow2 1023)) PInf = Inr (Finite 0)" by simp
  have r: "fmul (Finite 1) (Finite 0) = Finite 0" by (simp add: round64_0)
  have run: "SIRD_init_binary64 None None None
         (Some (Finite 1)) (Some (Finite (pow2 1023))) (Some (Finite (pow2 1023))) =
       Inr \<lparr>R0_64 = Finite 0, M_64 = Finite 0, P_64 = Finite 0,
            beta_64 = Finite 1, gamma_64 = Finite (pow2 1023), delta_64 = Finite (pow2 1023)\<rparr>"
    by (simp add: SIRD_init_binary64_def sum p m r del: fadd.simps fdiv.simps fmul.simps)
  show ?thesis by (intro conjI d s run)
qed

text \<open>
  C9, in binary64: let the rates be floats with \<open>beta \<ge> 0\<close>, \<open>gamma \<ge> 0\<close>,
  \<open>delta \<ge> 0\<close> and \<open>gamma + delta > 0\<close>, let the float sum \<open>gamma + delta\<close> be finite, and
  let \<open>beta > 0\<close> or \<open>1 / (gamma + delta)\<close> be finite. Then the construction from the rates
  succeeds, \<open>P\<close> is positive (possibly infinite), \<open>M\<close> is a finite number between 0 and
  1, and \<open>R0\<close> is not negative (possibly infinite).
\<close>

theorem init_binary64_derived_ranges:
  assumes "is_double g" and "is_double d"
    and "0 \<le> b" and "0 \<le> g" and "0 \<le> d" and "0 < g + d"
    and "fadd (Finite g) (Finite d) = Finite s"
    and "0 < b \<or> (\<exists>p. fdiv (Finite 1) (Finite s) = Inr (Finite p))"
  shows "\<exists>m. SIRD_init_binary64 None None None
               (Some (Finite b)) (Some (Finite g)) (Some (Finite d)) = Inr m
     \<and> (P_64 m = PInf \<or> (\<exists>y. P_64 m = Finite y \<and> 0 < y))
     \<and> (\<exists>y. M_64 m = Finite y \<and> 0 \<le> y \<and> y \<le> 1)
     \<and> (R0_64 m = PInf \<or> (\<exists>y. R0_64 m = Finite y \<and> 0 \<le> y))"
proof -
  from assms(7) have rs: "round64 (g + d) = Finite s" by simp
  then have s: "s = round_real (g + d)" and s_up: "s < 2 ^ 1024"
    using round64_Finite_D [OF rs] by simp_all
  have "g \<le> s" and ds: "d \<le> s"
    using assms(1-5) s by (simp_all add: round_real_ge_double)
  with assms(6) have s_pos: "0 < s" by linarith
  then have s_nz: "s \<noteq> 0" by simp
  have "1 / 2 ^ 1024 < 1 / s"
    using s_pos s_up by (intro divide_strict_left_mono) (simp_all del: power_numeral)
  moreover have "pow2 (- 1074) \<le> pow2 (- 1024)" by (rule pow2_mono) simp
  moreover have "pow2 (- 1024) = 1 / 2 ^ 1024" by (simp add: pow2_def del: power_numeral)
  ultimately have inv: "pow2 (- 1074) \<le> 1 / s" by linarith
  have "0 \<le> d / s" and "d / s \<le> 1" using assms(5) s_pos ds by simp_all
  then obtain y where y: "round64 (d / s) = Finite y" "0 \<le> y" "y \<le> 1"
    using round64_unit_interval by blast
  have quot: "fdiv (Finite d) (Finite s) = Inr (Finite y)" using s_nz y(1) by simp
  have recip: "fdiv (Finite 1) (Finite s) = Inr (round64 (1 / s))" using s_nz by simp
  from round64_pos_cases [OF inv]
  consider "round64 (1 / s) = PInf" | p where "round64 (1 / s) = Finite p" "0 < p"
    by blast
  then show ?thesis
  proof cases
    case 1
    with assms(8) recip have "0 < b" by auto
    then have "fmul (Finite b) PInf = PInf" by (simp add: inf_of_sign_def)
    then show ?thesis
      using 1 y(2,3)
      by (simp add: SIRD_init_binary64_def assms(7) recip quot
          del: fadd.simps fdiv.simps fmul.simps)
  next
    case 2
    have "0 \<le> b * p" using assms(3) 2(2) by simp
    then have "fmul (Finite b) (Finite p) = PInf
        \<or> (\<exists>y. fmul (Finite b) (Finite p) = Finite y \<and> 0 \<le> y)"
      using round64_nonneg_cases [of "b * p"] by simp
    then show ?thesis
      using 2 y(2,3)
      by (simp add: SIRD_init_binary64_def assms(7) recip quot
          del: fadd.simps fdiv.simps fmul.simps)
  qed
qed

text \<open>
  The ranges at \<open>beta = gamma = delta = 1/2\<close>.
\<close>

theorem init_binary64_derived_ranges_witness:
  "is_double (1 / 2) \<and> (0::real) \<le> 1 / 2 \<and> (0::real) < 1 / 2 + 1 / 2
   \<and> fadd (Finite (1 / 2)) (Finite (1 / 2)) = Finite 1
   \<and> ((0::real) < 1 / 2 \<or> (\<exists>p. fdiv (Finite 1) (Finite 1) = Inr (Finite p)))
   \<and> (\<exists>m. SIRD_init_binary64 None None None
               (Some (Finite (1 / 2))) (Some (Finite (1 / 2))) (Some (Finite (1 / 2))) = Inr m
     \<and> (P_64 m = PInf \<or> (\<exists>y. P_64 m = Finite y \<and> 0 < y))
     \<and> (\<exists>y. M_64 m = Finite y \<and> 0 \<le> y \<and> y \<le> 1)
     \<and> (R0_64 m = PInf \<or> (\<exists>y. R0_64 m = Finite y \<and> 0 \<le> y)))"
proof -
  have d: "is_double (1 / 2)" by (simp only: is_double_def round64_half)
  have n: "(0::real) \<le> 1 / 2" and pos: "(0::real) < 1 / 2 + 1 / 2" by simp_all
  have sum: "fadd (Finite (1 / 2)) (Finite (1 / 2)) = Finite 1"
    by (simp only: fadd.simps round64_half_plus_half)
  have p: "(0::real) < 1 / 2 \<or> (\<exists>p. fdiv (Finite 1) (Finite 1) = Inr (Finite p))" by simp
  from init_binary64_derived_ranges [OF d d n n n pos sum p]
  show ?thesis using d n pos sum p by blast
qed

subsection \<open>Initial conditions\<close>




subsection \<open>Solving and reading the final state\<close>

text \<open>
  With a time frame of 0 the grid is empty: \<open>solve\<close> succeeds, returns the instance
  and stores a solution without samples, and \<open>get_params\<close> then raises \<open>TypeError\<close>.
\<close>

theorem get_params_empty_trajectory:
  "fst (solve euler_solver example_model initial_conditions (Some 0)) =
     Inr (snd (solve euler_solver example_model initial_conditions (Some 0)))
   \<and> soln (snd (solve euler_solver example_model initial_conditions (Some 0))) =
       Some \<lparr>sol_t = [], sol_y = []\<rparr>
   \<and> get_params (snd (solve euler_solver example_model initial_conditions (Some 0))) =
       Inl TypeError"
  by (simp add: solve_def initial_conditions_def setup_sird_def linspace_def
      euler_solver_def get_params_def Let_def)

text \<open>
  C7, for a stored solution with samples: \<open>get_params\<close> raises \<open>AttributeError\<close> on
  a freshly constructed instance and on every instance without a stored solution.
  After a successful \<open>solve\<close> the returned object is the instance and a solution is
  stored; when its matrix has the four non-empty rows of \<open>S\<close>, \<open>I\<close>, \<open>R\<close> and \<open>D\<close>,
  \<open>get_params\<close> returns the last entry of each row and, under the key \<open>Sum params:\<close>,
  their sum; when the solution has no sample, \<open>get_params\<close> raises \<open>TypeError\<close>.
\<close>

theorem get_params_last_sample:
  "(SIRD_init r0 m p b g d = Inr fresh \<longrightarrow> get_params fresh = Inl AttributeError)
   \<and> (soln self0 = None \<longrightarrow> get_params self0 = Inl AttributeError)
   \<and> (solve ivp self ic tf = (Inr ret, self') \<longrightarrow>
        ret = self'
        \<and> (\<exists>res. soln self' = Some res
             \<and> (sol_y res = [] \<longrightarrow> get_params self' = Inl TypeError)
             \<and> (\<forall>Ss Is Rs Ds.
                   sol_y res = [Ss, Is, Rs, Ds] \<and> Ss \<noteq> [] \<and> Is \<noteq> [] \<and> Rs \<noteq> [] \<and> Ds \<noteq> [] \<longrightarrow>
                   get_params self' =
                     Inr [(''S'', last Ss), (''I'', last Is), (''R'', last Rs), (''D'', last Ds),
                          (''Sum params:'', last Ss + last Is + last Rs + last Ds)])))"
proof (intro conjI impI)
  assume "SIRD_init r0 m p b g d = Inr fresh"
  then have "soln fresh = None"
    by (auto simp add: SIRD_init_def split: option.splits if_splits)
  then show "get_params fresh = Inl AttributeError"
    by (simp add: get_params_def)
next
  assume "soln self0 = None"
  then show "get_params self0 = Inl AttributeError"
    by (simp add: get_params_def)
next
  assume "solve ivp self ic tf = (Inr ret, self')"
  then show "ret = self'"
    using solve_returns_self by blast
next
  assume "solve ivp self ic tf = (Inr ret, self')"
  then obtain res where res: "soln self' = Some res"
    using solve_returns_self by blast
  show "\<exists>res. soln self' = Some res
             \<and> (sol_y res = [] \<longrightarrow> get_params self' = Inl TypeError)
             \<and> (\<forall>Ss Is Rs Ds.
                   sol_y res = [Ss, Is, Rs, Ds] \<and> Ss \<noteq> [] \<and> Is \<noteq> [] \<and> Rs \<noteq> [] \<and> Ds \<noteq> [] \<longrightarrow>
                   get_params self' =
                     Inr [(''S'', last Ss), (''I'', last Is), (''R'', last Rs), (''D'', last Ds),
                          (''Sum params:'', last Ss + last Is + last Rs + last Ds)])"
    using res get_params_four_rows [OF res] get_params_empty [OF res] by blast
qed

text \<open>
  The final state after one day of the Euler method on \<open>initial_conditions\<close>.
\<close>

theorem get_params_last_sample_witness:
  "SIRD_init None None None (Some (1/2)) (Some (1/5)) (Some (1/20)) = Inr example_model
   \<and> get_params example_model = Inl AttributeError
   \<and> get_params (snd (solve euler_solver example_model initial_conditions (Some 1))) =
       Inr [(''S'', 7999386677 / 8000000000), (''I'', 1499969 / 24000000000),
            (''R'', 31 / 3000000), (''D'', 23 / 6000000), (''Sum params:'', 1)]"
proof -
  have fresh: "SIRD_init None None None (Some (1/2)) (Some (1/5)) (Some (1/20)) = Inr example_model"
    by (simp add: SIRD_init_def example_model_def)
  have none: "soln example_model = None"
    by (simp add: example_model_def)
  let ?X = "example_model\<lparr>population := Some 60000000,
             y0 := Some [599969 / 600000, 1 / 20000, 1 / 3000000, 1 / 750000],
             soln := Some \<lparr>sol_t = [0, 1],
                sol_y = [[599969 / 600000, 7999386677 / 8000000000],
                         [1 / 20000, 1499969 / 24000000000],
                         [1 / 3000000, 31 / 3000000],
                         [1 / 750000, 23 / 6000000]]\<rparr>\<rparr>"
  have run: "solve euler_solver example_model initial_conditions (Some 1) = (Inr ?X, ?X)"
    by (rule example_run)
  show ?thesis
    using get_params_last_sample [where ?r0.0 = None and m = None and p = None
        and b = "Some (1/2)" and g = "Some (1/5)" and d = "Some (1/20)"
        and fresh = example_model and ?self0.0 = example_model and ivp = euler_solver
        and self = example_model and ic = initial_conditions and tf = "Some 1"
        and ret = ?X and self' = ?X]
      fresh none run
    by simp
qed

text \<open>
  With a time frame of \<open>-1\<close> the grid would have \<open>-2\<close> points: \<open>linspace\<close> raises
  \<open>ValueError\<close> after \<open>setup\<close> has run, the solver is not called and nothing is
  returned.
\<close>

theorem solve_negative_time_frame:
  "solve euler_solver example_model initial_conditions (Some (- 1)) =
     (Inl ValueError,
      example_model\<lparr>population := Some 60000000,
             y0 := Some [599969 / 600000, 1 / 20000, 1 / 3000000, 1 / 750000]\<rparr>)"
  by (simp add: solve_def initial_conditions_def setup_sird_def linspace_def)

text \<open>
  C8, for a time frame that is not negative: \<open>solve\<close> runs \<open>setup\<close> on the four
  entries of the dictionary, calls the solver with the right-hand side \<open>eqns\<close>, the span
  \<open>(0, time_frame)\<close>, the state that \<open>setup\<close> stored, the rates of the instance and a
  grid of exactly \<open>2 * time_frame\<close> points with the constant spacing
  \<open>time_frame / (2 * time_frame - 1)\<close>, from 0 to \<open>time_frame\<close>; when the solver
  returns a solution, \<open>solve\<close> stores it and returns the instance. Without a time frame
  \<open>solve\<close> behaves as with 300.
\<close>

theorem solve_grid_and_return:
  assumes "ic ''population'' = Some pop" and "ic ''cases'' = Some c"
    and "ic ''recovered'' = Some r" and "ic ''deaths'' = Some d"
    and "setup_sird self pop c r d = (Inr (), self1)" and "y0 self1 = Some y_init"
    and "0 \<le> tf"
    and "grid = map (\<lambda>i. real i * (real_of_int tf / real_of_int (2 * tf - 1))) [0 ..< nat (2 * tf)]"
    and "ivp eqns (0, real_of_int tf) y_init (beta self, gamma self, delta self) grid = Inr res"
  shows "solve ivp self ic (Some tf) = (Inr (self1\<lparr>soln := Some res\<rparr>), self1\<lparr>soln := Some res\<rparr>)
     \<and> length grid = nat (2 * tf)
     \<and> (\<forall>i. Suc i < length grid \<longrightarrow>
           grid ! Suc i - grid ! i = real_of_int tf / real_of_int (2 * tf - 1))
     \<and> (1 \<le> tf \<longrightarrow> hd grid = 0 \<and> last grid = real_of_int tf)
     \<and> solve ivp self ic None = solve ivp self ic (Some 300)"
proof (intro conjI allI impI)
  show "solve ivp self ic (Some tf) = (Inr (self1\<lparr>soln := Some res\<rparr>), self1\<lparr>soln := Some res\<rparr>)"
    using assms(8,9) by (simp add: solve_after_setup [OF assms(1-7)])
next
  show "length grid = nat (2 * tf)"
    using assms(8) by simp
next
  fix i
  assume lt: "Suc i < length grid"
  define h where "h = real_of_int tf / real_of_int (2 * tf - 1)"
  have g: "grid = map (\<lambda>i. real i * h) [0 ..< nat (2 * tf)]"
    using assms(8) by (simp add: h_def)
  from lt g have "grid ! Suc i = real (Suc i) * h" and "grid ! i = real i * h"
    by simp_all
  then have "grid ! Suc i - grid ! i = h"
    by (simp add: algebra_simps)
  then show "grid ! Suc i - grid ! i = real_of_int tf / real_of_int (2 * tf - 1)"
    by (simp add: h_def)
next
  assume "1 \<le> tf"
  then have pos: "0 < nat (2 * tf)" by simp
  then show "hd grid = 0"
    using assms(8) by (simp add: hd_map hd_upt)
next
  assume one: "1 \<le> tf"
  then have pos: "[0 ..< nat (2 * tf)] \<noteq> []" by simp
  have "real (nat (2 * tf) - 1) = real_of_int (2 * tf - 1)"
    using one by (simp add: of_nat_diff)
  moreover have "real_of_int (2 * tf - 1) \<noteq> 0"
    using one by simp
  ultimately show "last grid = real_of_int tf"
    using assms(8) pos by (simp add: last_map last_upt)
next
  show "solve ivp self ic None = solve ivp self ic (Some 300)"
    by (rule solve_default)
qed

text \<open>
  One day of the Euler method on \<open>initial_conditions\<close>.
\<close>

theorem solve_grid_and_return_witness:
  "solve euler_solver example_model initial_conditions (Some 1) =
     (Inr (example_model\<lparr>population := Some 60000000,
             y0 := Some [599969 / 600000, 1 / 20000, 1 / 3000000, 1 / 750000],
             soln := Some \<lparr>sol_t = [0, 1],
                sol_y = [[599969 / 600000, 7999386677 / 8000000000],
                         [1 / 20000, 1499969 / 24000000000],
                         [1 / 3000000, 31 / 3000000],
                         [1 / 750000, 23 / 6000000]]\<rparr>\<rparr>),
      example_model\<lparr>population := Some 60000000,
             y0 := Some [599969 / 600000, 1 / 20000, 1 / 3000000, 1 / 750000],
             soln := Some \<lparr>sol_t = [0, 1],
                sol_y = [[599969 / 600000, 7999386677 / 8000000000],
                         [1 / 20000, 1499969 / 24000000000],
                         [1 / 3000000, 31 / 3000000],
                         [1 / 750000, 23 / 6000000]]\<rparr>\<rparr>)
   \<and> length [0, 1 :: real] = nat (2 * 1)
   \<and> hd [0, 1 :: real] = 0 \<and> last [0, 1 :: real] = real_of_int 1"
proof -
  have k: "initial_conditions ''population'' = Some 60000000"
    "initial_conditions ''cases'' = Some 3000"
    "initial_conditions ''recovered'' = Some 20"
    "initial_conditions ''deaths'' = Some 80"
    by (simp_all add: initial_conditions_def)
  have st: "setup_sird example_model 60000000 3000 20 80 =
      (Inr (), example_model\<lparr>population := Some 60000000,
             y0 := Some [599969 / 600000, 1 / 20000, 1 / 3000000, 1 / 750000]\<rparr>)"
    by (simp add: setup_sird_def)
  have y: "y0 (example_model\<lparr>population := Some 60000000,
             y0 := Some [599969 / 600000, 1 / 20000, 1 / 3000000, 1 / 750000]\<rparr>) =
      Some [599969 / 600000, 1 / 20000, 1 / 3000000, 1 / 750000]"
    by simp
  have tf: "(0::int) \<le> 1" by simp
  have grid: "[0, 1 :: real] =
      map (\<lambda>i. real i * (real_of_int 1 / real_of_int (2 * 1 - 1))) [0 ..< nat (2 * 1)]"
    by (simp add: upt_rec)
  have run: "euler_solver eqns (0, real_of_int 1)
       [599969 / 600000, 1 / 20000, 1 / 3000000, 1 / 750000]
       (beta example_model, gamma example_model, delta example_model) [0, 1] =
      Inr \<lparr>sol_t = [0, 1],
                sol_y = [[599969 / 600000, 7999386677 / 8000000000],
                         [1 / 20000, 1499969 / 24000000000],
                         [1 / 3000000, 31 / 3000000],
                         [1 / 750000, 23 / 6000000]]\<rparr>"
    by (simp add: example_model_def euler_solver_def eqns_def dSdt_def dIdt_def dRdt_def
        dDdt_def Let_def transpose.simps)
  show ?thesis
    using solve_grid_and_return [where ic = initial_conditions and ivp = euler_solver,
        OF k st y tf grid run]
    by simp
qed

end
